theory Spec2Isabelle
  imports Complex_Main
begin

unbundle bit_operations_syntax

section \<open>VisionStream: the acquisition lifecycle of backend/app.py\<close>

text \<open>
  The development embeds \<^verbatim>\<open>open_capture\<close> and \<^verbatim>\<open>main\<close> of
  \<^verbatim>\<open>src/backend/app.py\<close>. The platform services the program calls (cv2, time,
  logging) are the environment: what they return is an input of the model, what the
  program asks of them is appended to a chronological list of effects.

  Readings of \<^verbatim>\<open>time.perf_counter()\<close> and the values computed from them are
  Python floats; the model computes with them as real numbers, so rounding is outside
  the model.
\<close>

subsection \<open>Constants of the module\<close>

definition RTSP_RETRY_ATTEMPTS :: nat where
  "RTSP_RETRY_ATTEMPTS = 3"

definition RTSP_RETRY_DELAY :: real where
  "RTSP_RETRY_DELAY = 2"

definition FPS_FRAME_COUNT :: nat where
  "FPS_FRAME_COUNT = 60"

definition CONSEC_FAIL_MAX :: int where
  "CONSEC_FAIL_MAX = 30"

definition EXIT_OK :: int where
  "EXIT_OK = 0"

definition EXIT_INIT_FAIL :: int where
  "EXIT_INIT_FAIL = 1"

definition EXIT_RUNTIME_FAIL :: int where
  "EXIT_RUNTIME_FAIL = 2"

subsection \<open>Effects and exceptions\<close>

datatype level = DEBUG | INFO | ERROR

text \<open>An argument interpolated into a logged f-string.\<close>

datatype arg = I int | R real | S string

text \<open>
  What the program asks of its environment, in the order it asks. A capture handle is
  named by the number of the \<^verbatim>\<open>cv2.VideoCapture\<close> call that created it.
  \<^verbatim>\<open>Log\<close> carries the fixed text of the message and the interpolated values.
\<close>

datatype effect =
    Video_capture nat
  | Release nat
  | Sleep real
  | Named_window
  | Draw_fps real
  | Imshow
  | Destroy_all_windows
  | Log level string "arg list"
  | Log_exception string

text \<open>
  The exceptions the two handlers of \<^verbatim>\<open>main\<close> distinguish:
  \<^verbatim>\<open>KeyboardInterrupt\<close> and any instance of \<^verbatim>\<open>Exception\<close> (with its text).
\<close>

datatype py_exc = KeyboardInterrupt | Exception string

datatype py_error = ZeroDivisionError

datatype 'a outcome = Returns 'a | Raises py_exc

subsection \<open>\<^verbatim>\<open>parse_args\<close>\<close>

text \<open>
  Lines 23 to 41. The arguments are what the command line gives: the value of
  \<^verbatim>\<open>--source\<close> (\<^verbatim>\<open>webcam\<close> when the option is absent), the value of
  \<^verbatim>\<open>--path\<close> (\<^verbatim>\<open>None\<close> when absent) and the overlay flag (\<^verbatim>\<open>True\<close> unless
  \<^verbatim>\<open>--no-fps\<close> is given). \<^verbatim>\<open>argparse\<close> refuses a value of \<^verbatim>\<open>--source\<close> that is
  not one of its \<^verbatim>\<open>choices\<close>: it prints the usage and ends the program with status
  2, the \<open>Inl\<close> result. The option \<^verbatim>\<open>--log-level\<close> only selects the lines the
  logger prints; it is taken to hold one of its two choices and is not an argument of
  the model.
\<close>

record args =
  args_source :: string
  args_path :: "string option"
  args_show_fps :: bool

definition parse_args :: "string \<Rightarrow> string option \<Rightarrow> bool \<Rightarrow> int + args" where
  "parse_args source path show_fps =
     (if source = ''webcam'' \<or> source = ''file'' \<or> source = ''rtsp'' then
        Inr \<lparr>args_source = source, args_path = path, args_show_fps = show_fps\<rparr>
      else Inl 2)"

subsection \<open>\<^verbatim>\<open>open_capture\<close>\<close>

record capture =
  hid :: nat
  isOpened :: bool

text \<open>
  \<^verbatim>\<open>cv2.VideoCapture(...)\<close>: the environment \<open>opens\<close> says whether the handle made
  by the \<open>k\<close>-th call reports itself open.
\<close>

definition VideoCapture :: "(nat \<Rightarrow> bool) \<Rightarrow> nat \<Rightarrow> capture" where
  "VideoCapture opens k = \<lparr>hid = k, isOpened = opens k\<rparr>"

text \<open>Python's \<^verbatim>\<open>not path\<close>: the path is \<^verbatim>\<open>None\<close> or the empty string.\<close>

definition not_path :: "string option \<Rightarrow> bool" where
  "not_path path = (case path of None \<Rightarrow> True | Some p \<Rightarrow> p = [])"

text \<open>
  How the \<^verbatim>\<open>for attempt in range(1, RTSP_RETRY_ATTEMPTS + 1)\<close> loop is left:
  by \<^verbatim>\<open>return None\<close>, or by \<^verbatim>\<open>break\<close> or exhaustion with the current value of
  \<^verbatim>\<open>cap\<close>.
\<close>

datatype rtsp_exit = Returned_None | Loop_left "capture option"

fun rtsp_connect ::
  "(nat \<Rightarrow> bool) \<Rightarrow> nat list \<Rightarrow> capture option \<Rightarrow> effect list \<Rightarrow> effect list \<times> rtsp_exit"
where
  "rtsp_connect opens [] cap effs = (effs, Loop_left cap)"
| "rtsp_connect opens (attempt # rest) cap effs =
     (let effs1 = effs @
            [Log DEBUG ''Attempting to connect to RTSP stream (attempt {}/{})...''
               [I (int attempt), I (int RTSP_RETRY_ATTEMPTS)],
             Video_capture attempt];
          cap1 = VideoCapture opens attempt
      in if isOpened cap1 then (effs1, Loop_left (Some cap1))
         else
           (let effs2 = effs1 @ [Release (hid cap1)]
            in if attempt < RTSP_RETRY_ATTEMPTS
               then rtsp_connect opens rest (Some cap1)
                      (effs2 @
                        [Log DEBUG ''Connection failed. Retrying in {} seconds...''
                           [R RTSP_RETRY_DELAY],
                         Sleep RTSP_RETRY_DELAY])
               else (effs2 @ [Log ERROR ''All RTSP connection attempts failed'' []],
                     Returned_None)))"

text \<open>
  Lines 79 to 95: the check that the handle is open, the tips, the success messages
  (the frame dimensions read from the handle are not modelled).
\<close>

definition check_opened ::
  "string \<Rightarrow> string option \<Rightarrow> effect list \<Rightarrow> capture option \<Rightarrow> effect list \<times> capture option"
where
  "check_opened source path effs cap =
     (if (case cap of None \<Rightarrow> True | Some c \<Rightarrow> \<not> isOpened c) then
        (effs @ [Log ERROR ''Failed to connect to {}'' [S source]] @
           (if \<not> not_path path then
              (if source = ''file'' then
                 [Log ERROR ''Tips: verify file path, permissions, and that the file is not zero-length or locked.'' []]
               else if source = ''rtsp'' then
                 [Log ERROR ''Tips: verify URL, credentials, network/firewall, and that the camera is online.'' []]
               else [])
            else
              [Log ERROR ''Tips: ensure the webcam is connected, has drivers, and isn't used by another app.'' []]),
         None)
      else
        (effs @
           [(if \<not> not_path path
             then Log INFO ''Successfully connected to {}: {}'' [S source, S (the path)]
             else Log INFO ''Successfully connected to {} (default camera)'' [S source]),
            Log INFO ''Stream resolution: {}x{}'' []],
         cap))"

definition open_capture ::
  "(nat \<Rightarrow> bool) \<Rightarrow> string \<Rightarrow> string option \<Rightarrow> effect list \<times> capture option"
where
  "open_capture opens source path =
     (if source = ''webcam'' then
        check_opened source path [Video_capture 1] (Some (VideoCapture opens 1))
      else if source = ''file'' then
        (if not_path path then
           ([Log ERROR ''Video file path is required. Use --path to specify the file location'' []],
            None)
         else check_opened source path [Video_capture 1] (Some (VideoCapture opens 1)))
      else if source = ''rtsp'' then
        (if not_path path then
           ([Log ERROR ''RTSP URL is required. Use --path to specify the stream URL'' []],
            None)
         else
           (case rtsp_connect opens [1..<RTSP_RETRY_ATTEMPTS + 1] None [] of
              (effs, Returned_None) \<Rightarrow> (effs, None)
            | (effs, Loop_left cap) \<Rightarrow> check_opened source path effs cap))
      else
        ([Log ERROR (''Invalid source type. Use 'webcam', 'file', or 'rtsp'' @ [CHR 0x27]) []],
         None))"

subsection \<open>The rolling window and the smoothed rate\<close>

text \<open>
  \<^verbatim>\<open>collections.deque(maxlen=n).append(x)\<close>: the element goes to the right end and,
  when the deque then holds more than \<open>n\<close> elements, elements are dropped from the
  left end.
\<close>

definition deque_append :: "nat \<Rightarrow> 'a list \<Rightarrow> 'a \<Rightarrow> 'a list" where
  "deque_append maxlen d x = (let ys = d @ [x] in drop (length ys - maxlen) ys)"

text \<open>Python's \<^verbatim>\<open>/\<close> on floats raises when the divisor is zero.\<close>

definition truediv :: "real \<Rightarrow> real \<Rightarrow> py_error + real" where
  "truediv a b = (if b = 0 then Inl ZeroDivisionError else Inr (a / b))"

text \<open>Lines 158 to 162: the value of \<^verbatim>\<open>fps\<close> computed from the window.\<close>

definition smoothed_fps :: "real list \<Rightarrow> py_error + real" where
  "smoothed_fps frame_durations =
     (if frame_durations \<noteq> [] then
        (case truediv (sum_list frame_durations) (real (length frame_durations)) of
           Inl e \<Rightarrow> Inl e
         | Inr avg_duration \<Rightarrow> (if avg_duration > 0 then truediv 1 avg_duration else Inr 0))
      else Inr 0)"

subsection \<open>The monitoring loop of \<^verbatim>\<open>main\<close>\<close>

record loop_state =
  frame_durations :: "real list"
  prev_time :: real
  frame_count :: int
  consecutive_failures :: int
  exit_code :: int
  effects :: "effect list"

text \<open>
  What the environment does in one iteration of \<^verbatim>\<open>while True\<close>:
  \<^item> \<open>Read_raises e\<close>: \<^verbatim>\<open>cap.read()\<close> raises \<open>e\<close>;
  \<^item> \<open>Not_delivered oc\<close>: \<^verbatim>\<open>cap.read()\<close> returns \<^verbatim>\<open>ret = False\<close>; \<open>oc\<close> is the
    outcome of the call the branch taken then makes (\<^verbatim>\<open>logger.info\<close>,
    \<^verbatim>\<open>logger.error\<close> or \<^verbatim>\<open>time.sleep(0.02)\<close>);
  \<^item> \<open>Delivered t oc\<close>: \<^verbatim>\<open>cap.read()\<close> returns \<^verbatim>\<open>ret = True\<close> and
    \<^verbatim>\<open>time.perf_counter()\<close> reads \<open>t\<close>; \<open>oc\<close> is the outcome of the drawing,
    display and polling calls of lines 164 to 186: one of them raises, or all return,
    \<^verbatim>\<open>cv2.waitKey(1)\<close> with the key and \<^verbatim>\<open>cv2.getWindowProperty\<close> with the
    visibility.
  The overlay drawn on the frame and the DEBUG line are not modelled beyond that.
\<close>

datatype event =
    Read_raises py_exc
  | Not_delivered "unit outcome"
  | Delivered real "(int \<times> real) outcome"

datatype step_result = Continue loop_state | Break loop_state | Raise py_exc loop_state

definition emit :: "effect list \<Rightarrow> loop_state \<Rightarrow> loop_state" where
  "emit es st = st\<lparr>effects := effects st @ es\<rparr>"

definition failed_read :: "string \<Rightarrow> loop_state \<Rightarrow> unit outcome \<Rightarrow> step_result" where
  "failed_read source st oc =
     (let st1 = st\<lparr>consecutive_failures := consecutive_failures st + 1\<rparr>
      in if source = ''file'' then
           (case oc of
              Raises e \<Rightarrow> Raise e st1
            | Returns _ \<Rightarrow>
                Break ((emit [Log INFO ''Video file has reached the end'' []] st1)
                         \<lparr>exit_code := EXIT_OK\<rparr>))
         else if consecutive_failures st1 \<ge> CONSEC_FAIL_MAX then
           (case oc of
              Raises e \<Rightarrow> Raise e st1
            | Returns _ \<Rightarrow>
                Break ((emit [Log ERROR ''Failed to read frames {} times in a row. Likely causes: device unplugged, stream dropped, or permissions lost.''
                                [I CONSEC_FAIL_MAX]] st1)
                         \<lparr>exit_code := EXIT_RUNTIME_FAIL\<rparr>))
         else
           (case oc of
              Raises e \<Rightarrow> Raise e st1
            | Returns _ \<Rightarrow> Continue (emit [Sleep (2 / 100)] st1)))"

definition good_frame ::
  "bool \<Rightarrow> loop_state \<Rightarrow> real \<Rightarrow> (int \<times> real) outcome \<Rightarrow> step_result"
where
  "good_frame show_fps st curr_time oc =
     (let st1 = st\<lparr>consecutive_failures := 0\<rparr>;
          frame_duration = curr_time - prev_time st1;
          st2 = st1\<lparr>frame_durations :=
                       deque_append FPS_FRAME_COUNT (frame_durations st1) frame_duration,
                    prev_time := curr_time,
                    frame_count := frame_count st1 + 1\<rparr>
      in case smoothed_fps (frame_durations st2) of
           Inl err \<Rightarrow> Raise (Exception ''ZeroDivisionError'') st2
         | Inr fps \<Rightarrow>
             (case oc of
                Raises e \<Rightarrow> Raise e st2
              | Returns (key, visible) \<Rightarrow>
                  (let st3 = emit ((if show_fps then [Draw_fps fps] else []) @ [Imshow]) st2
                   in if key AND 255 = 113 then
                        Break ((emit [Log INFO ''User requested exit (q key)'' []] st3)
                                 \<lparr>exit_code := EXIT_OK\<rparr>)
                      else if visible < 1 then
                        Break ((emit [Log INFO ''Window closed by user'' []] st3)
                                 \<lparr>exit_code := EXIT_OK\<rparr>)
                      else Continue st3)))"

definition step :: "string \<Rightarrow> bool \<Rightarrow> loop_state \<Rightarrow> event \<Rightarrow> step_result" where
  "step source show_fps st ev =
     (case ev of
        Read_raises e \<Rightarrow> Raise e st
      | Not_delivered oc \<Rightarrow> failed_read source st oc
      | Delivered curr_time oc \<Rightarrow> good_frame show_fps st curr_time oc)"

text \<open>
  The loop has no bound of its own. It is run on the events the environment has
  produced so far: \<open>Running\<close> says that they are used up and the loop is still
  going, \<open>Broke\<close> that it was left by \<^verbatim>\<open>break\<close>, \<open>Raised\<close> that an exception
  left the \<^verbatim>\<open>try\<close> body.
\<close>

datatype loop_result = Running loop_state | Broke loop_state | Raised py_exc loop_state

fun run_loop :: "string \<Rightarrow> bool \<Rightarrow> loop_state \<Rightarrow> event list \<Rightarrow> loop_result" where
  "run_loop source show_fps st [] = Running st"
| "run_loop source show_fps st (ev # evs) =
     (case step source show_fps st ev of
        Continue st' \<Rightarrow> run_loop source show_fps st' evs
      | Break st' \<Rightarrow> Broke st'
      | Raise e st' \<Rightarrow> Raised e st')"

fun final_state :: "loop_result \<Rightarrow> loop_state" where
  "final_state (Running st) = st"
| "final_state (Broke st) = st"
| "final_state (Raised e st) = st"

subsection \<open>\<^verbatim>\<open>main\<close>: start, handlers and the \<^verbatim>\<open>finally\<close> block\<close>

text \<open>Lines 111 to 120, with \<open>t0\<close> the first reading of the clock.\<close>

definition initial_state :: "real \<Rightarrow> effect list \<Rightarrow> loop_state" where
  "initial_state t0 effs =
     \<lparr>frame_durations = [], prev_time = t0, frame_count = 0, consecutive_failures = 0,
      exit_code = EXIT_OK,
      effects = effs @
        [Named_window,
         Log INFO ''VisionStream is running. Press 'q' to quit or close the window to exit.'' []]\<rparr>"

text \<open>The two \<^verbatim>\<open>except\<close> clauses; \<open>None\<close> while the loop is still running.\<close>

fun handlers :: "loop_result \<Rightarrow> loop_state option" where
  "handlers (Running st) = None"
| "handlers (Broke st) = Some st"
| "handlers (Raised KeyboardInterrupt st) =
     Some ((emit [Log INFO ''Keyboard interrupt received (Ctrl+C)'' []] st)
             \<lparr>exit_code := EXIT_OK\<rparr>)"
| "handlers (Raised (Exception msg) st) =
     Some ((emit [Log_exception msg] st)\<lparr>exit_code := EXIT_RUNTIME_FAIL\<rparr>)"

text \<open>
  The \<^verbatim>\<open>finally\<close> block, with \<open>t_end\<close> the last reading of the clock; the result is
  what the program has asked of its environment and the argument of
  \<^verbatim>\<open>sys.exit\<close>.
\<close>

definition finally_block ::
  "capture option \<Rightarrow> real \<Rightarrow> real \<Rightarrow> loop_state \<Rightarrow> effect list \<times> int"
where
  "finally_block cap start_time t_end st =
     (let effs = effects st
                   @ (case cap of None \<Rightarrow> [] | Some c \<Rightarrow> [Release (hid c)])
                   @ [Destroy_all_windows];
          total_time = t_end - start_time;
          avg_fps = (if total_time > 0 then real_of_int (frame_count st) / total_time else 0)
      in (effs @
            [Log INFO ''VisionStream closed. Frames={}, Duration={}s, Avg FPS={}''
               [I (frame_count st), R total_time, R avg_fps]],
          exit_code st))"

text \<open>
  \<^verbatim>\<open>main\<close>, from the command line to the argument of \<^verbatim>\<open>sys.exit\<close>. When
  \<^verbatim>\<open>parse_args\<close> ends the program nothing of the rest is run.
  \<^verbatim>\<open>setup_logger\<close> (line 100) raises only for a level that is neither
  \<^verbatim>\<open>DEBUG\<close> nor \<^verbatim>\<open>INFO\<close>, which \<^verbatim>\<open>parse_args\<close> has refused before.
\<close>

definition main ::
  "string \<Rightarrow> string option \<Rightarrow> bool \<Rightarrow> (nat \<Rightarrow> bool) \<Rightarrow> real \<Rightarrow> event list \<Rightarrow> real
     \<Rightarrow> (effect list \<times> int) option"
where
  "main source path show_fps opens t0 evs t_end =
     (case parse_args source path show_fps of
        Inl status \<Rightarrow> Some ([], status)
      | Inr args \<Rightarrow>
          (case open_capture opens (args_source args) (args_path args) of
             (effs, None) \<Rightarrow>
               Some (effs @
                       [Log ERROR ''Unable to start VisionStream due to input error.'' []],
                     EXIT_INIT_FAIL)
           | (effs, Some cap) \<Rightarrow>
               (case handlers (run_loop (args_source args) (args_show_fps args)
                                (initial_state t0 effs) evs) of
                  None \<Rightarrow> None
                | Some st \<Rightarrow> Some (finally_block (Some cap) t0 t_end st))))"

text \<open>The state a step leaves behind, however the iteration ends.\<close>

fun next_state :: "step_result \<Rightarrow> loop_state" where
  "next_state (Continue st) = st"
| "next_state (Break st) = st"
| "next_state (Raise e st) = st"

text \<open>The exception an iteration raises, if the environment makes it raise one.\<close>

fun raised :: "event \<Rightarrow> py_exc option" where
  "raised (Read_raises e) = Some e"
| "raised (Not_delivered (Raises e)) = Some e"
| "raised (Delivered t (Raises e)) = Some e"
| "raised ev = None"

text \<open>
  The specification's \<open>mean(RateWindow)\<close>: the arithmetic mean of the durations in
  the window. It is used to state the estimator's result, not to compute it.
\<close>

definition mean :: "real list \<Rightarrow> real" where
  "mean ds = sum_list ds / real (length ds)"

section \<open>Properties\<close>

subsection \<open>Auxiliary facts\<close>

lemma open_capture_Some_source:
  assumes "open_capture opens source path = (effs, Some cap)"
  shows "source = ''webcam'' \<or> source = ''file'' \<or> source = ''rtsp''"
  using assms by (auto simp: open_capture_def split: if_splits)

lemma main_parsed:
  assumes "source = ''webcam'' \<or> source = ''file'' \<or> source = ''rtsp''"
  shows "main source path show_fps opens t0 evs t_end =
     (case open_capture opens source path of
        (effs, None) \<Rightarrow>
          Some (effs @ [Log ERROR ''Unable to start VisionStream due to input error.'' []],
                EXIT_INIT_FAIL)
      | (effs, Some cap) \<Rightarrow>
          (case handlers (run_loop source show_fps (initial_state t0 effs) evs) of
             None \<Rightarrow> None
           | Some st \<Rightarrow> Some (finally_block (Some cap) t0 t_end st)))"
  using assms by (simp add: main_def parse_args_def)

lemma main_refused:
  assumes "source \<noteq> ''webcam''" and "source \<noteq> ''file''" and "source \<noteq> ''rtsp''"
  shows "main source path show_fps opens t0 evs t_end = Some ([], 2)"
  using assms by (simp add: main_def parse_args_def)

lemma run_loop_append:
  "run_loop source show_fps st (xs @ ys) =
     (case run_loop source show_fps st xs of
        Running st' \<Rightarrow> run_loop source show_fps st' ys
      | Broke st' \<Rightarrow> Broke st'
      | Raised e st' \<Rightarrow> Raised e st')"
  by (induction xs arbitrary: st) (auto split: step_result.splits)

lemma failed_read_continue:
  assumes "source \<noteq> ''file''" and "consecutive_failures st + 1 < CONSEC_FAIL_MAX"
  shows "step source show_fps st (Not_delivered (Returns ())) =
           Continue (st\<lparr>consecutive_failures := consecutive_failures st + 1,
                         effects := effects st @ [Sleep (2 / 100)]\<rparr>)"
  using assms by (simp add: step_def failed_read_def emit_def Let_def)

lemma failed_read_ceiling:
  assumes "source \<noteq> ''file''" and "consecutive_failures st + 1 \<ge> CONSEC_FAIL_MAX"
  shows "step source show_fps st (Not_delivered (Returns ())) =
           Break (st\<lparr>consecutive_failures := consecutive_failures st + 1,
                      effects := effects st @
                        [Log ERROR ''Failed to read frames {} times in a row. Likely causes: device unplugged, stream dropped, or permissions lost.''
                           [I CONSEC_FAIL_MAX]],
                      exit_code := EXIT_RUNTIME_FAIL\<rparr>)"
  using assms by (simp add: step_def failed_read_def emit_def Let_def)

lemma run_failures:
  assumes "source \<noteq> ''file''"
  shows "consecutive_failures st + int n < CONSEC_FAIL_MAX \<Longrightarrow>
         run_loop source show_fps st (replicate n (Not_delivered (Returns ())) @ rest) =
           run_loop source show_fps
             (st\<lparr>consecutive_failures := consecutive_failures st + int n,
                 effects := effects st @ replicate n (Sleep (2 / 100))\<rparr>) rest"
proof (induction n arbitrary: st)
  case 0
  then show ?case by simp
next
  case (Suc n)
  have c: "consecutive_failures st + 1 < CONSEC_FAIL_MAX"
    using Suc.prems by simp
  let ?st1 = "st\<lparr>consecutive_failures := consecutive_failures st + 1,
                   effects := effects st @ [Sleep (2 / 100)]\<rparr>"
  have "consecutive_failures ?st1 + int n < CONSEC_FAIL_MAX"
    using Suc.prems by simp
  from Suc.IH [OF this] show ?case
    by (simp add: failed_read_continue [OF assms c] replicate_app_Cons_same ac_simps)
qed

lemma smoothed_fps_Inr: "\<exists>fps. smoothed_fps ds = Inr fps"
proof (cases "ds = []")
  case True
  then show ?thesis by (simp add: smoothed_fps_def)
next
  case False
  then have "real (length ds) \<noteq> 0" by simp
  then show ?thesis
    by (auto simp: smoothed_fps_def truediv_def)
qed

lemma good_frame_counter:
  "consecutive_failures (next_state (step source show_fps st (Delivered t oc))) = 0"
proof -
  obtain fps where "smoothed_fps (deque_append FPS_FRAME_COUNT (frame_durations st) (t - prev_time st)) = Inr fps"
    using smoothed_fps_Inr by blast
  then show ?thesis
    by (cases oc) (auto simp: step_def good_frame_def emit_def Let_def)
qed

lemma failed_read_counter:
  "consecutive_failures (next_state (step source show_fps st (Not_delivered oc))) =
     consecutive_failures st + 1"
  by (cases oc) (auto simp: step_def failed_read_def emit_def Let_def)

lemma running_after_delivered:
  assumes "run_loop source show_fps st0 (pre @ [Delivered t oc]) = Running st"
  shows "consecutive_failures st = 0"
proof -
  from assms obtain st1 where
    r: "run_loop source show_fps st0 pre = Running st1"
    and s: "run_loop source show_fps st1 [Delivered t oc] = Running st"
    by (auto simp: run_loop_append split: loop_result.splits)
  from s have "step source show_fps st1 (Delivered t oc) = Continue st"
    by (auto split: step_result.splits)
  with good_frame_counter [of source show_fps st1 t oc] show ?thesis by simp
qed

lemma initial_state_sel [simp]:
  "frame_durations (initial_state t0 effs) = []"
  "prev_time (initial_state t0 effs) = t0"
  "frame_count (initial_state t0 effs) = 0"
  "consecutive_failures (initial_state t0 effs) = 0"
  "exit_code (initial_state t0 effs) = EXIT_OK"
  by (simp_all add: initial_state_def)

lemma failed_read_keeps_time:
  "prev_time (next_state (step source show_fps st (Not_delivered oc))) = prev_time st
   \<and> frame_durations (next_state (step source show_fps st (Not_delivered oc))) =
       frame_durations st"
  by (cases oc) (auto simp: step_def failed_read_def emit_def Let_def)

lemma good_frame_time:
  "prev_time (next_state (step source show_fps st (Delivered t oc))) = t
   \<and> frame_durations (next_state (step source show_fps st (Delivered t oc))) =
       deque_append FPS_FRAME_COUNT (frame_durations st) (t - prev_time st)"
proof -
  obtain fps where "smoothed_fps (deque_append FPS_FRAME_COUNT (frame_durations st) (t - prev_time st)) = Inr fps"
    using smoothed_fps_Inr by blast
  then show ?thesis
    by (cases oc) (auto simp: step_def good_frame_def emit_def Let_def)
qed

lemma final_state_single:
  "final_state (run_loop source show_fps st [ev]) = next_state (step source show_fps st ev)"
  by (cases "step source show_fps st ev") simp_all

lemma good_frame_continue_iff:
  "(\<exists>s'. step source show_fps s (Delivered t oc) = Continue s') \<longleftrightarrow>
   (\<exists>key visible. oc = Returns (key, visible) \<and> key AND 255 \<noteq> 113 \<and> \<not> visible < 1)"
proof -
  obtain fps where "smoothed_fps (deque_append FPS_FRAME_COUNT (frame_durations s) (t - prev_time s)) = Inr fps"
    using smoothed_fps_Inr by blast
  then show ?thesis
    by (cases oc) (auto simp: step_def good_frame_def emit_def Let_def split: if_splits)
qed

lemma good_frame_break_code:
  assumes "step source show_fps s (Delivered t oc) = Break s'"
  shows "exit_code s' = EXIT_OK"
proof -
  obtain fps where "smoothed_fps (deque_append FPS_FRAME_COUNT (frame_durations s) (t - prev_time s)) = Inr fps"
    using smoothed_fps_Inr by blast
  with assms show ?thesis
    by (cases oc) (auto simp: step_def good_frame_def emit_def Let_def split: if_splits)
qed

lemma run_loop_single:
  "run_loop source show_fps st [ev] =
     (case step source show_fps st ev of
        Continue s \<Rightarrow> Running s | Break s \<Rightarrow> Broke s | Raise e s \<Rightarrow> Raised e s)"
  by (simp split: step_result.splits)

lemma length_deque_append: "length (deque_append n w d) = min n (length w + 1)"
  by (simp add: deque_append_def Let_def)

lemma deque_append_nonempty: "0 < n \<Longrightarrow> deque_append n w d \<noteq> []"
  by (simp add: deque_append_def Let_def)

lemma foldl_deque_append:
  "foldl (deque_append n) w ds = drop (length w + length ds - n) (w @ ds)" if "length w \<le> n"
  using that
proof (induction ds arbitrary: w)
  case Nil
  then show ?case by simp
next
  case (Cons d ds)
  have l: "length (deque_append n w d) \<le> n"
    by (simp add: length_deque_append)
  have "foldl (deque_append n) (deque_append n w d) ds =
        drop (length (deque_append n w d) + length ds - n) (deque_append n w d @ ds)"
    by (rule Cons.IH [OF l])
  also have "\<dots> = drop (length w + length (d # ds) - n) (w @ d # ds)"
  proof (cases "length w < n")
    case True
    then have "deque_append n w d = w @ [d]"
      by (simp add: deque_append_def Let_def)
    then show ?thesis by simp
  next
    case False
    with Cons.prems have e: "length w = n" by simp
    then have "deque_append n w d = drop 1 (w @ [d])"
      by (simp add: deque_append_def Let_def)
    then show ?thesis using e
      by (cases w) (auto simp: min_def)
  qed
  finally show ?case by simp
qed

lemma step_window_bounded:
  assumes "length (frame_durations st) \<le> FPS_FRAME_COUNT"
  shows "length (frame_durations (next_state (step source show_fps st ev))) \<le> FPS_FRAME_COUNT"
proof (cases ev)
  case (Read_raises e)
  with assms show ?thesis by (simp add: step_def)
next
  case (Not_delivered oc)
  with assms failed_read_keeps_time [of source show_fps st oc] show ?thesis by simp
next
  case (Delivered t oc)
  with good_frame_time [of source show_fps st t oc] show ?thesis
    by (simp add: length_deque_append)
qed

lemma run_loop_window_bounded:
  "length (frame_durations st) \<le> FPS_FRAME_COUNT \<Longrightarrow>
   length (frame_durations (final_state (run_loop source show_fps st evs))) \<le> FPS_FRAME_COUNT"
proof (induction evs arbitrary: st)
  case Nil
  then show ?case by simp
next
  case (Cons ev evs)
  from step_window_bounded [OF Cons.prems, of source show_fps ev]
  show ?case
    by (cases "step source show_fps st ev") (auto intro: Cons.IH)
qed

lemma smoothed_fps_mean:
  assumes "ds \<noteq> []"
  shows "smoothed_fps ds = Inr (if mean ds > 0 then 1 / mean ds else 0)"
proof -
  have n: "real (length ds) \<noteq> 0" using assms by simp
  show ?thesis
  proof (cases "mean ds > 0")
    case True
    then have "mean ds \<noteq> 0" by simp
    with True n assms show ?thesis
      by (simp add: smoothed_fps_def truediv_def mean_def)
  next
    case False
    with n assms show ?thesis
      by (simp add: smoothed_fps_def truediv_def mean_def)
  qed
qed

lemma step_effects:
  "count_list (effects (next_state (step source show_fps st ev))) (Release h) =
     count_list (effects st) (Release h)
   \<and> count_list (effects (next_state (step source show_fps st ev))) Destroy_all_windows =
     count_list (effects st) Destroy_all_windows"
proof (cases ev)
  case (Read_raises e)
  then show ?thesis by (simp add: step_def)
next
  case (Not_delivered oc)
  then show ?thesis
    by (cases oc) (auto simp: step_def failed_read_def emit_def Let_def)
next
  case (Delivered t oc)
  obtain fps where "smoothed_fps (deque_append FPS_FRAME_COUNT (frame_durations st) (t - prev_time st)) = Inr fps"
    using smoothed_fps_Inr by blast
  with Delivered show ?thesis
    by (cases oc) (auto simp: step_def good_frame_def emit_def Let_def)
qed

lemma run_loop_effects:
  "count_list (effects (final_state (run_loop source show_fps st evs))) (Release h) =
     count_list (effects st) (Release h)
   \<and> count_list (effects (final_state (run_loop source show_fps st evs))) Destroy_all_windows =
     count_list (effects st) Destroy_all_windows"
proof (induction evs arbitrary: st)
  case Nil
  then show ?case by simp
next
  case (Cons ev evs)
  from step_effects [of source show_fps st ev h]
  show ?case
    by (cases "step source show_fps st ev") (auto simp: Cons.IH)
qed

lemma handlers_effects:
  assumes "handlers r = Some st"
  shows "count_list (effects st) (Release h) = count_list (effects (final_state r)) (Release h)
       \<and> count_list (effects st) Destroy_all_windows =
           count_list (effects (final_state r)) Destroy_all_windows
       \<and> frame_count st = frame_count (final_state r)"
  using assms by (cases r rule: handlers.cases) (auto simp: emit_def)

lemma handlers_Some_iff: "(\<exists>st. handlers r = Some st) \<longleftrightarrow> (\<forall>s. r \<noteq> Running s)"
  by (cases r rule: handlers.cases) auto

lemma rtsp_connect_releases:
  assumes "rtsp_connect opens attempts cap effs = (effs', ex)"
    and "\<forall>k. Release k \<in> set effs \<longrightarrow> \<not> opens k"
    and "Destroy_all_windows \<notin> set effs"
    and "\<forall>c. cap = Some c \<longrightarrow> isOpened c = opens (hid c)"
  shows "(\<forall>k. Release k \<in> set effs' \<longrightarrow> \<not> opens k)
       \<and> Destroy_all_windows \<notin> set effs'
       \<and> (\<forall>c. ex = Loop_left (Some c) \<longrightarrow> isOpened c = opens (hid c))"
  using assms
proof (induction attempts arbitrary: cap effs)
  case Nil
  then show ?case by auto
next
  case (Cons attempt rest)
  show ?case
  proof (cases "opens attempt")
    case True
    with Cons.prems show ?thesis
      by (auto simp: VideoCapture_def)
  next
    case False
    show ?thesis
    proof (cases "attempt < RTSP_RETRY_ATTEMPTS")
      case lt: True
      let ?effs = "effs @
            [Log DEBUG ''Attempting to connect to RTSP stream (attempt {}/{})...''
               [I (int attempt), I (int RTSP_RETRY_ATTEMPTS)],
             Video_capture attempt] @ [Release attempt] @
                        [Log DEBUG ''Connection failed. Retrying in {} seconds...''
                           [R RTSP_RETRY_DELAY],
                         Sleep RTSP_RETRY_DELAY]"
      have r: "rtsp_connect opens rest (Some (VideoCapture opens attempt)) ?effs = (effs', ex)"
        using Cons.prems(1) False lt by (simp add: VideoCapture_def)
      have p2: "\<forall>k. Release k \<in> set ?effs \<longrightarrow> \<not> opens k"
        using Cons.prems(2) False by auto
      have p3: "Destroy_all_windows \<notin> set ?effs"
        using Cons.prems(3) by simp
      have p4: "\<forall>c. Some (VideoCapture opens attempt) = Some c \<longrightarrow> isOpened c = opens (hid c)"
        by (auto simp: VideoCapture_def)
      show ?thesis
        by (rule Cons.IH [OF r p2 p3 p4])
    next
      case ge: False
      with Cons.prems False show ?thesis
        by (auto simp: VideoCapture_def)
    qed
  qed
qed

lemma open_capture_no_release:
  assumes "open_capture opens source path = (effs, Some cap)"
  shows "count_list effs (Release (hid cap)) = 0 \<and> count_list effs Destroy_all_windows = 0"
proof -
  have "Release (hid cap) \<notin> set effs \<and> Destroy_all_windows \<notin> set effs"
  proof (cases "source = ''rtsp'' \<and> \<not> not_path path")
    case False
    with assms show ?thesis
      by (auto simp: open_capture_def check_opened_def split: if_splits)
  next
    case True
    obtain effs1 ex where r: "rtsp_connect opens [1..<RTSP_RETRY_ATTEMPTS + 1] None [] = (effs1, ex)"
      by (cases "rtsp_connect opens [1..<RTSP_RETRY_ATTEMPTS + 1] None []") auto
    from rtsp_connect_releases [OF r]
    have inv: "(\<forall>k. Release k \<in> set effs1 \<longrightarrow> \<not> opens k)
       \<and> Destroy_all_windows \<notin> set effs1
       \<and> (\<forall>c. ex = Loop_left (Some c) \<longrightarrow> isOpened c = opens (hid c))"
      by simp
    from assms True r obtain capo where ex: "ex = Loop_left capo"
      and c: "check_opened source path effs1 capo = (effs, Some cap)"
      by (cases ex) (auto simp: open_capture_def)
    from c have "capo = Some cap" and "isOpened cap" and
      "set effs \<subseteq> set effs1 \<union> {e. \<exists>l m a. e = Log l m a}"
      by (auto simp: check_opened_def split: if_splits option.splits)
    with inv ex show ?thesis by auto
  qed
  then show ?thesis by (simp add: count_list_0_iff)
qed

lemma step_break_code:
  assumes "step source show_fps st ev = Break st'"
  shows "exit_code st' = EXIT_OK \<or> exit_code st' = EXIT_RUNTIME_FAIL"
proof (cases ev)
  case (Read_raises e)
  with assms show ?thesis by (simp add: step_def)
next
  case (Not_delivered oc)
  with assms show ?thesis
    by (cases oc) (auto simp: step_def failed_read_def emit_def Let_def split: if_splits)
next
  case (Delivered t oc)
  with assms good_frame_break_code [of source show_fps st t oc st'] show ?thesis by simp
qed

lemma run_loop_broke_code:
  "run_loop source show_fps st evs = Broke st' \<Longrightarrow>
   exit_code st' = EXIT_OK \<or> exit_code st' = EXIT_RUNTIME_FAIL"
proof (induction evs arbitrary: st)
  case Nil
  then show ?case by simp
next
  case (Cons ev evs)
  then show ?case
    by (cases "step source show_fps st ev") (auto dest: step_break_code)
qed

lemma handlers_code:
  assumes "handlers (run_loop source show_fps st0 evs) = Some st"
  shows "exit_code st = EXIT_OK \<or> exit_code st = EXIT_RUNTIME_FAIL"
proof (cases "run_loop source show_fps st0 evs" rule: handlers.cases)
  case (2 s)
  with assms run_loop_broke_code [of source show_fps st0 evs s] show ?thesis by simp
qed (use assms in auto)

subsection \<open>C1: thirty consecutive failed reads on a source that is not a file\<close>

text \<open>
  Claim C1. On a source other than \<^verbatim>\<open>file\<close>, take a run of the loop that is still
  going and has just started or has just delivered a frame. When the next 30
  iterations read no frame (and the backoff of each returns), the loop is left by
  \<^verbatim>\<open>break\<close> in the thirtieth with \<^verbatim>\<open>exit_code = EXIT_RUNTIME_FAIL\<close> (2) and
  \<^verbatim>\<open>consecutive_failures = 30\<close>; whatever the environment would do afterwards
  (\<open>rest\<close>) is not looked at.
\<close>

theorem sustained_failure_ceiling:
  assumes "source \<noteq> ''file''"
    and "run_loop source show_fps (initial_state t0 effs) pre = Running st"
    and "pre = [] \<or> (\<exists>t oc. last pre = Delivered t oc)"
  shows "run_loop source show_fps (initial_state t0 effs)
           (pre @ replicate 30 (Not_delivered (Returns ())) @ rest) =
         Broke (st\<lparr>consecutive_failures := 30,
                    effects := effects st @ replicate 29 (Sleep (2 / 100)) @
                      [Log ERROR ''Failed to read frames {} times in a row. Likely causes: device unplugged, stream dropped, or permissions lost.''
                         [I 30]],
                    exit_code := EXIT_RUNTIME_FAIL\<rparr>)
         \<and> EXIT_RUNTIME_FAIL = 2"
proof -
  have z: "consecutive_failures st = 0"
  proof (cases "pre = []")
    case True
    with assms(2) show ?thesis by (auto simp: initial_state_def)
  next
    case False
    with assms(3) obtain t oc where "last pre = Delivered t oc" by blast
    with False have "pre = butlast pre @ [Delivered t oc]"
      by (metis append_butlast_last_id)
    with assms(2) running_after_delivered [of source show_fps "initial_state t0 effs" "butlast pre" t oc st]
    show ?thesis by simp
  qed
  have split30: "replicate 30 (Not_delivered (Returns ())) @ rest =
      replicate 29 (Not_delivered (Returns ())) @ (Not_delivered (Returns ()) # rest)"
    by (simp add: replicate_app_Cons_same eval_nat_numeral)
  let ?st29 = "st\<lparr>consecutive_failures := consecutive_failures st + int 29,
                    effects := effects st @ replicate 29 (Sleep (2 / 100))\<rparr>"
  have a: "run_loop source show_fps st (replicate 29 (Not_delivered (Returns ())) @ (Not_delivered (Returns ()) # rest))
     = run_loop source show_fps ?st29 (Not_delivered (Returns ()) # rest)"
    using z by (intro run_failures [OF assms(1)]) (simp add: CONSEC_FAIL_MAX_def)
  have b: "step source show_fps ?st29 (Not_delivered (Returns ())) =
      Break (?st29\<lparr>consecutive_failures := consecutive_failures ?st29 + 1,
                      effects := effects ?st29 @
                        [Log ERROR ''Failed to read frames {} times in a row. Likely causes: device unplugged, stream dropped, or permissions lost.''
                           [I CONSEC_FAIL_MAX]],
                      exit_code := EXIT_RUNTIME_FAIL\<rparr>)"
    using z by (intro failed_read_ceiling [OF assms(1)]) (simp add: CONSEC_FAIL_MAX_def)
  have "run_loop source show_fps (initial_state t0 effs)
           (pre @ replicate 30 (Not_delivered (Returns ())) @ rest) =
        run_loop source show_fps st (replicate 30 (Not_delivered (Returns ())) @ rest)"
    using assms(2) by (simp add: run_loop_append)
  also have "\<dots> = run_loop source show_fps ?st29 (Not_delivered (Returns ()) # rest)"
    by (simp only: split30 a)
  also have "\<dots> = Broke (?st29\<lparr>consecutive_failures := consecutive_failures ?st29 + 1,
                      effects := effects ?st29 @
                        [Log ERROR ''Failed to read frames {} times in a row. Likely causes: device unplugged, stream dropped, or permissions lost.''
                           [I CONSEC_FAIL_MAX]],
                      exit_code := EXIT_RUNTIME_FAIL\<rparr>)"
    by (simp only: run_loop.simps b step_result.case)
  finally show ?thesis
    using z by (simp add: CONSEC_FAIL_MAX_def EXIT_RUNTIME_FAIL_def)
qed

theorem sustained_failure_ceiling_witness:
  "''webcam'' \<noteq> ''file''
   \<and> run_loop ''webcam'' True (initial_state 0 []) [Delivered 1 (Returns (255, 1))] =
       Running ((initial_state 0 [])\<lparr>frame_durations := [1], prev_time := 1, frame_count := 1,
                  effects := effects (initial_state 0 []) @ [Draw_fps 1, Imshow]\<rparr>)
   \<and> run_loop ''webcam'' True (initial_state 0 [])
         ([Delivered 1 (Returns (255, 1))] @ replicate 30 (Not_delivered (Returns ())) @ []) =
       Broke ((initial_state 0 [])\<lparr>frame_durations := [1], prev_time := 1, frame_count := 1,
                consecutive_failures := 30,
                effects := effects (initial_state 0 []) @ [Draw_fps 1, Imshow] @
                  replicate 29 (Sleep (2 / 100)) @
                  [Log ERROR ''Failed to read frames {} times in a row. Likely causes: device unplugged, stream dropped, or permissions lost.''
                     [I 30]],
                exit_code := 2\<rparr>)"
proof -
  have h1: "''webcam'' \<noteq> ''file''" by simp
  have h2: "run_loop ''webcam'' True (initial_state 0 []) [Delivered 1 (Returns (255, 1))] =
       Running ((initial_state 0 [])\<lparr>frame_durations := [1], prev_time := 1, frame_count := 1,
                  effects := effects (initial_state 0 []) @ [Draw_fps 1, Imshow]\<rparr>)"
    by (simp add: step_def good_frame_def smoothed_fps_def truediv_def deque_append_def
          emit_def initial_state_def FPS_FRAME_COUNT_def)
  have h3: "[Delivered 1 (Returns (255, 1))] = [] \<or>
            (\<exists>t oc. last [Delivered 1 (Returns (255, 1))] = Delivered t oc)"
    by simp
  show ?thesis
    using sustained_failure_ceiling [OF h1 h2 h3, of "[]"] h1 h2
    by (simp add: EXIT_RUNTIME_FAIL_def)
qed

subsection \<open>C2: the \<^verbatim>\<open>finally\<close> block on every way out of the loop\<close>

text \<open>
  Claim C2. Let \<^verbatim>\<open>open_capture\<close> have returned the handle \<open>cap\<close> and let the loop
  have ended, by \<^verbatim>\<open>break\<close> or by an exception that one of the two handlers took
  (by \<open>handlers_Some_iff\<close> this is every result other than \<open>Running\<close>), with \<open>st\<close>
  the state after the handler. Then \<^verbatim>\<open>main\<close> ends, and what it does after the loop
  is exactly: release \<open>cap\<close>, destroy the windows, log the summary with the frame
  count, the elapsed time \<open>t_end - t0\<close> and the average rate (frame count divided by
  the elapsed time when that is positive, 0 otherwise), and exit with
  \<^verbatim>\<open>exit_code\<close>. Up to the end of the loop neither \<open>cap\<close> was released nor the
  windows destroyed, so both happen exactly once. The frame count is the loop's, and
  the exit code is \<^verbatim>\<open>EXIT_OK\<close> or \<^verbatim>\<open>EXIT_RUNTIME_FAIL\<close>.
\<close>

theorem session_teardown:
  assumes "open_capture opens source path = (effs0, Some cap)"
    and "handlers (run_loop source show_fps (initial_state t0 effs0) evs) = Some st"
  shows "main source path show_fps opens t0 evs t_end =
           Some (effects st @
                   [Release (hid cap), Destroy_all_windows,
                    Log INFO ''VisionStream closed. Frames={}, Duration={}s, Avg FPS={}''
                      [I (frame_count st), R (t_end - t0),
                       R (if t_end - t0 > 0 then real_of_int (frame_count st) / (t_end - t0)
                          else 0)]],
                 exit_code st)
       \<and> count_list (effects st) (Release (hid cap)) = 0
       \<and> count_list (effects st) Destroy_all_windows = 0
       \<and> frame_count st =
           frame_count (final_state (run_loop source show_fps (initial_state t0 effs0) evs))
       \<and> (exit_code st = EXIT_OK \<or> exit_code st = EXIT_RUNTIME_FAIL)"
proof -
  let ?r = "run_loop source show_fps (initial_state t0 effs0) evs"
  have m: "main source path show_fps opens t0 evs t_end =
           Some (effects st @
                   [Release (hid cap), Destroy_all_windows,
                    Log INFO ''VisionStream closed. Frames={}, Duration={}s, Avg FPS={}''
                      [I (frame_count st), R (t_end - t0),
                       R (if t_end - t0 > 0 then real_of_int (frame_count st) / (t_end - t0)
                          else 0)]],
                 exit_code st)"
    using assms
    by (simp add: main_parsed [OF open_capture_Some_source [OF assms(1)]]
          finally_block_def Let_def)
  have e0: "count_list (effects (initial_state t0 effs0)) (Release (hid cap)) = 0
          \<and> count_list (effects (initial_state t0 effs0)) Destroy_all_windows = 0"
    using open_capture_no_release [OF assms(1)] by (simp add: initial_state_def)
  have rel: "count_list (effects st) (Release (hid cap)) = 0"
    using handlers_effects [OF assms(2), of "hid cap"]
      run_loop_effects [of source show_fps "initial_state t0 effs0" evs "hid cap"] e0
    by simp
  have des: "count_list (effects st) Destroy_all_windows = 0"
    using handlers_effects [OF assms(2), of "hid cap"]
      run_loop_effects [of source show_fps "initial_state t0 effs0" evs "hid cap"] e0
    by simp
  have fc: "frame_count st = frame_count (final_state ?r)"
    using handlers_effects [OF assms(2), of "hid cap"] by simp
  from m rel des fc handlers_code [OF assms(2)] show ?thesis by blast
qed

theorem session_teardown_witness:
  "open_capture (\<lambda>k. True) ''webcam'' None =
     ([Video_capture 1,
       Log INFO ''Successfully connected to {} (default camera)'' [S ''webcam''],
       Log INFO ''Stream resolution: {}x{}'' []],
      Some \<lparr>hid = 1, isOpened = True\<rparr>)
   \<and> map_option snd
         (main ''webcam'' None True (\<lambda>k. True) 0
            [Delivered 1 (Returns (255, 1)), Delivered 2 (Returns (113, 1))] 4) = Some 0
   \<and> map_option (\<lambda>r. count_list (fst r) (Release 1))
         (main ''webcam'' None True (\<lambda>k. True) 0
            [Delivered 1 (Returns (255, 1)), Delivered 2 (Returns (113, 1))] 4) = Some 1
   \<and> map_option (\<lambda>r. count_list (fst r) Destroy_all_windows)
         (main ''webcam'' None True (\<lambda>k. True) 0
            [Delivered 1 (Returns (255, 1)), Delivered 2 (Returns (113, 1))] 4) = Some 1
   \<and> map_option (\<lambda>r. last (fst r))
         (main ''webcam'' None True (\<lambda>k. True) 0
            [Delivered 1 (Returns (255, 1)), Delivered 2 (Returns (113, 1))] 4) =
       Some (Log INFO ''VisionStream closed. Frames={}, Duration={}s, Avg FPS={}''
               [I 2, R 4, R (1 / 2)])"
proof -
  let ?effs0 = "[Video_capture 1,
       Log INFO ''Successfully connected to {} (default camera)'' [S ''webcam''],
       Log INFO ''Stream resolution: {}x{}'' []]"
  let ?st = "(initial_state 0 ?effs0)\<lparr>frame_durations := [1, 1], prev_time := 2,
       frame_count := 2,
       effects := effects (initial_state 0 ?effs0) @
         [Draw_fps 1, Imshow, Draw_fps 1, Imshow, Log INFO ''User requested exit (q key)'' []],
       exit_code := EXIT_OK\<rparr>"
  have h1: "open_capture (\<lambda>k. True) ''webcam'' None =
              (?effs0, Some \<lparr>hid = 1, isOpened = True\<rparr>)"
    by (simp add: open_capture_def check_opened_def not_path_def VideoCapture_def)
  have h2: "handlers (run_loop ''webcam'' True (initial_state 0 ?effs0)
              [Delivered 1 (Returns (255, 1)), Delivered 2 (Returns (113, 1))]) = Some ?st"
    by (simp add: step_def good_frame_def smoothed_fps_def truediv_def deque_append_def
          emit_def initial_state_def FPS_FRAME_COUNT_def)
  have fc: "frame_count ?st = 2" and ec: "exit_code ?st = 0"
    by (simp_all add: EXIT_OK_def)
  show ?thesis
    using session_teardown [OF h1 h2, of 4] h1 fc ec
    by simp
qed

subsection \<open>C3: the failure counter\<close>

text \<open>
  Claim C3 says that after a run of 29 failed reads followed by one successful read the
  loop has not terminated and the counter is 0, for every such sequence. Two runs from
  the start of the loop show otherwise. On the source \<^verbatim>\<open>file\<close> the test of line 130
  leaves the loop at the first failed read: the run ends by \<^verbatim>\<open>break\<close> with the
  counter at 1, and the delivered frame is never read. On the source \<^verbatim>\<open>webcam\<close>,
  when the iteration of the delivered frame polls the key \<^verbatim>\<open>q\<close> (113), the test of
  line 180 leaves the loop in that iteration, with the counter at 0.
\<close>

theorem failure_run_counterexample:
  "run_loop ''file'' True (initial_state 0 [])
     (replicate 29 (Not_delivered (Returns ())) @ [Delivered 1 (Returns (255, 1))]) =
   Broke ((initial_state 0 [])\<lparr>consecutive_failures := 1,
            effects := effects (initial_state 0 []) @
              [Log INFO ''Video file has reached the end'' []],
            exit_code := 0\<rparr>)
   \<and> run_loop ''webcam'' True (initial_state 0 [])
     (replicate 29 (Not_delivered (Returns ())) @ [Delivered 1 (Returns (113, 1))]) =
   Broke ((initial_state 0 [])\<lparr>frame_durations := [1], prev_time := 1, frame_count := 1,
            consecutive_failures := 0,
            effects := effects (initial_state 0 []) @ replicate 29 (Sleep (2 / 100)) @
              [Draw_fps 1, Imshow, Log INFO ''User requested exit (q key)'' []],
            exit_code := 0\<rparr>)"
proof -
  have f: "run_loop ''file'' True (initial_state 0 [])
     (replicate 29 (Not_delivered (Returns ())) @ [Delivered 1 (Returns (255, 1))]) =
   Broke ((initial_state 0 [])\<lparr>consecutive_failures := 1,
            effects := effects (initial_state 0 []) @
              [Log INFO ''Video file has reached the end'' []],
            exit_code := 0\<rparr>)"
    by (simp add: eval_nat_numeral step_def failed_read_def emit_def EXIT_OK_def)
  have n: "''webcam'' \<noteq> ''file''" by simp
  have lt: "consecutive_failures (initial_state 0 []) + int 29 < CONSEC_FAIL_MAX"
    by (simp add: CONSEC_FAIL_MAX_def)
  have w: "run_loop ''webcam'' True (initial_state 0 [])
     (replicate 29 (Not_delivered (Returns ())) @ [Delivered 1 (Returns (113, 1))]) =
   Broke ((initial_state 0 [])\<lparr>frame_durations := [1], prev_time := 1, frame_count := 1,
            consecutive_failures := 0,
            effects := effects (initial_state 0 []) @ replicate 29 (Sleep (2 / 100)) @
              [Draw_fps 1, Imshow, Log INFO ''User requested exit (q key)'' []],
            exit_code := 0\<rparr>)"
    unfolding run_failures [OF n lt]
    by (simp add: step_def good_frame_def smoothed_fps_def truediv_def deque_append_def
          emit_def initial_state_def FPS_FRAME_COUNT_def EXIT_OK_def)
  from f w show ?thesis by (rule conjI)
qed

text \<open>
  Claim C3, amended. In every iteration, from any state and on any source, a delivered
  frame sets \<^verbatim>\<open>consecutive_failures\<close> to 0 and a failed read adds exactly 1 to it. On
  a source other than \<^verbatim>\<open>file\<close>, starting from a counter of 0, 29 failed reads leave
  the loop running with the counter at 29; after the delivered frame that follows the
  counter is 0, and the loop is still running exactly when that iteration returns with
  a key other than \<^verbatim>\<open>q\<close> and a visible window.
\<close>

theorem failure_counter_reset:
  assumes "source \<noteq> ''file''" and "consecutive_failures st = 0"
  shows "consecutive_failures (next_state (step src show_fps s (Delivered t1 oc1))) = 0
       \<and> consecutive_failures (next_state (step src show_fps s (Not_delivered oc2))) =
           consecutive_failures s + 1
       \<and> run_loop source show_fps st (replicate 29 (Not_delivered (Returns ()))) =
           Running (st\<lparr>consecutive_failures := 29,
                        effects := effects st @ replicate 29 (Sleep (2 / 100))\<rparr>)
       \<and> consecutive_failures (final_state (run_loop source show_fps st
             (replicate 29 (Not_delivered (Returns ())) @ [Delivered t oc]))) = 0
       \<and> ((\<exists>s'. run_loop source show_fps st
               (replicate 29 (Not_delivered (Returns ())) @ [Delivered t oc]) = Running s')
           \<longleftrightarrow> (\<exists>key visible. oc = Returns (key, visible) \<and> key AND 255 \<noteq> 113
                  \<and> \<not> visible < 1))"
proof -
  let ?st29 = "st\<lparr>consecutive_failures := consecutive_failures st + int 29,
                   effects := effects st @ replicate 29 (Sleep (2 / 100))\<rparr>"
  have lt: "consecutive_failures st + int 29 < CONSEC_FAIL_MAX"
    using assms(2) by (simp add: CONSEC_FAIL_MAX_def)
  have a: "run_loop source show_fps st (replicate 29 (Not_delivered (Returns ())) @ evs) =
           run_loop source show_fps ?st29 evs" for evs
    by (rule run_failures [OF assms(1) lt])
  have c3: "run_loop source show_fps st (replicate 29 (Not_delivered (Returns ()))) =
           Running (st\<lparr>consecutive_failures := 29,
                        effects := effects st @ replicate 29 (Sleep (2 / 100))\<rparr>)"
    using a [of "[]"] assms(2) by simp
  let ?r = "run_loop source show_fps st
             (replicate 29 (Not_delivered (Returns ())) @ [Delivered t oc])"
  have r: "?r = (case step source show_fps ?st29 (Delivered t oc) of
        Continue s \<Rightarrow> Running s | Break s \<Rightarrow> Broke s | Raise e s \<Rightarrow> Raised e s)"
    by (simp only: a run_loop_single)
  have c4: "consecutive_failures (final_state ?r) = 0"
    using good_frame_counter [of source show_fps ?st29 t oc]
    by (simp only: a final_state_single)
  have c5: "(\<exists>s'. ?r = Running s') \<longleftrightarrow>
      (\<exists>key visible. oc = Returns (key, visible) \<and> key AND 255 \<noteq> 113 \<and> \<not> visible < 1)"
    unfolding r good_frame_continue_iff [of source show_fps ?st29 t oc, symmetric]
    by (auto split: step_result.splits)
  show ?thesis
    using good_frame_counter [of src show_fps s t1 oc1]
      failed_read_counter [of src show_fps s oc2] c3 c4 c5
    by blast
qed

theorem failure_counter_reset_witness:
  "''webcam'' \<noteq> ''file''
   \<and> consecutive_failures (initial_state 0 []) = 0
   \<and> run_loop ''webcam'' True (initial_state 0 []) (replicate 29 (Not_delivered (Returns ()))) =
       Running ((initial_state 0 [])\<lparr>consecutive_failures := 29,
                  effects := effects (initial_state 0 []) @ replicate 29 (Sleep (2 / 100))\<rparr>)
   \<and> consecutive_failures (final_state (run_loop ''webcam'' True (initial_state 0 [])
         (replicate 29 (Not_delivered (Returns ())) @ [Delivered 1 (Returns (255, 1))]))) = 0
   \<and> (\<exists>s'. run_loop ''webcam'' True (initial_state 0 [])
         (replicate 29 (Not_delivered (Returns ())) @ [Delivered 1 (Returns (255, 1))]) =
         Running s')"
proof -
  have h1: "''webcam'' \<noteq> ''file''" by simp
  have h2: "consecutive_failures (initial_state 0 []) = 0" by simp
  have k: "\<exists>key visible. (Returns (255, 1) :: (int \<times> real) outcome) = Returns (key, visible)
             \<and> key AND 255 \<noteq> 113 \<and> \<not> visible < 1"
    by simp
  show ?thesis
    using failure_counter_reset [OF h1 h2, where show_fps = True and t = 1
        and oc = "Returns (255, 1)"] h1 k
    by simp
qed

subsection \<open>C4: a file source ends at its first failed read\<close>

text \<open>
  Claim C4. On the source \<^verbatim>\<open>file\<close>, from any state of the loop (whatever
  \<^verbatim>\<open>consecutive_failures\<close> holds, also a value at or above the ceiling), an iteration
  that reads no frame leaves the loop by \<^verbatim>\<open>break\<close> with \<^verbatim>\<open>exit_code = EXIT_OK\<close>
  (0). The only effect of the iteration is the line logged: no \<^verbatim>\<open>time.sleep\<close>, and
  the result does not depend on the counter, which the ceiling test would read.
\<close>

theorem file_end_of_stream:
  "run_loop ''file'' show_fps st (Not_delivered (Returns ()) # rest) =
     Broke (st\<lparr>consecutive_failures := consecutive_failures st + 1,
                effects := effects st @ [Log INFO ''Video file has reached the end'' []],
                exit_code := EXIT_OK\<rparr>)
   \<and> EXIT_OK = 0"
  by (simp add: step_def failed_read_def emit_def EXIT_OK_def)

subsection \<open>C5: an RTSP source that never opens\<close>

text \<open>
  Claim C5. For the source \<^verbatim>\<open>rtsp\<close> with a non-empty path, when none of the handles
  reports itself open, \<^verbatim>\<open>open_capture\<close> does exactly this, in this order: three
  \<^verbatim>\<open>cv2.VideoCapture\<close> calls, each handle released before the next call, a sleep of
  2 s after the first and after the second failed attempt and none after the third;
  then it logs the failure and returns \<^verbatim>\<open>None\<close>.
\<close>

theorem rtsp_retries_exhausted:
  assumes "p \<noteq> []" and "\<not> opens 1" and "\<not> opens 2" and "\<not> opens 3"
  shows "open_capture opens ''rtsp'' (Some p) =
           ([Log DEBUG ''Attempting to connect to RTSP stream (attempt {}/{})...'' [I 1, I 3],
             Video_capture 1, Release 1,
             Log DEBUG ''Connection failed. Retrying in {} seconds...'' [R 2],
             Sleep 2,
             Log DEBUG ''Attempting to connect to RTSP stream (attempt {}/{})...'' [I 2, I 3],
             Video_capture 2, Release 2,
             Log DEBUG ''Connection failed. Retrying in {} seconds...'' [R 2],
             Sleep 2,
             Log DEBUG ''Attempting to connect to RTSP stream (attempt {}/{})...'' [I 3, I 3],
             Video_capture 3, Release 3,
             Log ERROR ''All RTSP connection attempts failed'' []],
            None)"
proof -
  have u: "[1..<RTSP_RETRY_ATTEMPTS + 1] = [1, 2, 3]"
    by (simp add: RTSP_RETRY_ATTEMPTS_def upt_rec)
  have n: "\<not> not_path (Some p)"
    using assms(1) by (simp add: not_path_def)
  have r: "rtsp_connect opens [1..<RTSP_RETRY_ATTEMPTS + 1] None [] =
           ([Log DEBUG ''Attempting to connect to RTSP stream (attempt {}/{})...'' [I 1, I 3],
             Video_capture 1, Release 1,
             Log DEBUG ''Connection failed. Retrying in {} seconds...'' [R 2],
             Sleep 2,
             Log DEBUG ''Attempting to connect to RTSP stream (attempt {}/{})...'' [I 2, I 3],
             Video_capture 2, Release 2,
             Log DEBUG ''Connection failed. Retrying in {} seconds...'' [R 2],
             Sleep 2,
             Log DEBUG ''Attempting to connect to RTSP stream (attempt {}/{})...'' [I 3, I 3],
             Video_capture 3, Release 3,
             Log ERROR ''All RTSP connection attempts failed'' []],
            Returned_None)"
    unfolding u using assms(2-4)
    by (simp add: VideoCapture_def RTSP_RETRY_ATTEMPTS_def RTSP_RETRY_DELAY_def)
  show ?thesis
    unfolding open_capture_def r using n by simp
qed

theorem rtsp_retries_exhausted_witness:
  "''rtsp://camera'' \<noteq> [] \<and> \<not> (\<lambda>k::nat. False) 1
   \<and> open_capture (\<lambda>k. False) ''rtsp'' (Some ''rtsp://camera'') =
           ([Log DEBUG ''Attempting to connect to RTSP stream (attempt {}/{})...'' [I 1, I 3],
             Video_capture 1, Release 1,
             Log DEBUG ''Connection failed. Retrying in {} seconds...'' [R 2],
             Sleep 2,
             Log DEBUG ''Attempting to connect to RTSP stream (attempt {}/{})...'' [I 2, I 3],
             Video_capture 2, Release 2,
             Log DEBUG ''Connection failed. Retrying in {} seconds...'' [R 2],
             Sleep 2,
             Log DEBUG ''Attempting to connect to RTSP stream (attempt {}/{})...'' [I 3, I 3],
             Video_capture 3, Release 3,
             Log ERROR ''All RTSP connection attempts failed'' []],
            None)"
proof -
  have h: "''rtsp://camera'' \<noteq> []" by simp
  show ?thesis
    using rtsp_retries_exhausted [OF h, of "\<lambda>k. False"] by simp
qed

subsection \<open>C6: the smoothed rate\<close>

text \<open>
  Claim C6. After a duration \<open>d\<close> has been appended to any window \<open>w\<close>, the rate
  computed from the window is \<open>1 / mean\<close> of the window when that mean is positive,
  and 0 otherwise. For the first frame the window is \<open>[d]\<close> and the rate is \<open>1 / d\<close>
  or 0; a single duration of 0 gives 0. The computation raises
  \<^verbatim>\<open>ZeroDivisionError\<close> on no window at all, the empty one included.
\<close>

theorem estimator_output:
  "smoothed_fps (deque_append FPS_FRAME_COUNT w d) =
     Inr (if mean (deque_append FPS_FRAME_COUNT w d) > 0
          then 1 / mean (deque_append FPS_FRAME_COUNT w d) else 0)
   \<and> smoothed_fps (deque_append FPS_FRAME_COUNT [] d) = Inr (if d > 0 then 1 / d else 0)
   \<and> smoothed_fps (deque_append FPS_FRAME_COUNT [] 0) = Inr 0
   \<and> smoothed_fps ds \<noteq> Inl ZeroDivisionError"
proof -
  have ne: "deque_append FPS_FRAME_COUNT w d \<noteq> []"
    by (rule deque_append_nonempty) (simp add: FPS_FRAME_COUNT_def)
  have one: "deque_append FPS_FRAME_COUNT [] x = [x]" for x :: real
    by (simp add: deque_append_def FPS_FRAME_COUNT_def)
  have a: "smoothed_fps [d] = Inr (if d > 0 then 1 / d else 0)"
    using smoothed_fps_mean [of "[d]"] by (simp add: mean_def)
  have b: "smoothed_fps [0] = Inr 0"
    using smoothed_fps_mean [of "[0]"] by (simp add: mean_def)
  have c: "smoothed_fps ds \<noteq> Inl ZeroDivisionError"
    using smoothed_fps_Inr [of ds] by auto
  show ?thesis
    using smoothed_fps_mean [OF ne] a b c by (simp add: one)
qed

subsection \<open>C7: interrupts and unexpected errors\<close>

text \<open>
  Claim C7. Let the loop be running after the events \<open>pre\<close>, and let the next
  iteration raise \<open>e\<close>: in \<^verbatim>\<open>cap.read()\<close>, in the branch of a failed read (its
  logging or its sleep), or after a delivered frame (drawing, display, polling). Then
  \<^verbatim>\<open>main\<close> ends whatever would follow (\<open>rest\<close>): for
  \<^verbatim>\<open>KeyboardInterrupt\<close> it logs the interrupt and exits with 0, for an
  \<^verbatim>\<open>Exception\<close> it logs the exception and exits with 2; in both cases the handle
  is released, the windows are destroyed and a summary is logged, and the exception
  goes no further, the run ending with an exit code.
\<close>

theorem interrupt_and_error_exit:
  assumes "open_capture opens source path = (effs0, Some cap)"
    and "run_loop source show_fps (initial_state t0 effs0) pre = Running st"
    and "raised ev = Some e"
  shows "\<exists>summary. main source path show_fps opens t0 (pre @ ev # rest) t_end =
           Some (effects (next_state (step source show_fps st ev)) @
                   [case e of
                      KeyboardInterrupt \<Rightarrow> Log INFO ''Keyboard interrupt received (Ctrl+C)'' []
                    | Exception msg \<Rightarrow> Log_exception msg,
                    Release (hid cap), Destroy_all_windows, summary],
                 case e of KeyboardInterrupt \<Rightarrow> 0 | Exception msg \<Rightarrow> 2)"
proof -
  have "\<exists>s'. step source show_fps st ev = Raise e s'"
  proof (cases ev rule: raised.cases)
    case (1 e')
    with assms(3) show ?thesis by (simp add: step_def)
  next
    case (2 e')
    with assms(3) show ?thesis by (simp add: step_def failed_read_def Let_def)
  next
    case (3 t e')
    obtain fps where "smoothed_fps (deque_append FPS_FRAME_COUNT (frame_durations st) (t - prev_time st)) = Inr fps"
      using smoothed_fps_Inr by blast
    with 3 assms(3) show ?thesis by (simp add: step_def good_frame_def Let_def)
  qed (use assms(3) in auto)
  then obtain s' where s: "step source show_fps st ev = Raise e s'"
    by blast
  then have n: "next_state (step source show_fps st ev) = s'"
    by simp
  have r: "run_loop source show_fps (initial_state t0 effs0) (pre @ ev # rest) = Raised e s'"
    using assms(2) s by (simp add: run_loop_append)
  show ?thesis
    using assms(1)
    by (cases e)
      (simp_all add: main_parsed [OF open_capture_Some_source [OF assms(1)]] r n
         finally_block_def emit_def Let_def EXIT_OK_def
         EXIT_RUNTIME_FAIL_def)
qed

theorem interrupt_and_error_exit_witness:
  "raised (Not_delivered (Raises KeyboardInterrupt)) = Some KeyboardInterrupt
   \<and> map_option snd
         (main ''webcam'' None True (\<lambda>k. True) 0
            ([Delivered 1 (Returns (255, 1))] @ Not_delivered (Raises KeyboardInterrupt) # []) 4)
       = Some 0
   \<and> raised (Delivered 2 (Raises (Exception ''boom''))) = Some (Exception ''boom'')
   \<and> map_option snd
         (main ''webcam'' None True (\<lambda>k. True) 0
            ([Delivered 1 (Returns (255, 1))] @ Delivered 2 (Raises (Exception ''boom'')) # []) 4)
       = Some 2"
proof -
  let ?effs0 = "[Video_capture 1,
       Log INFO ''Successfully connected to {} (default camera)'' [S ''webcam''],
       Log INFO ''Stream resolution: {}x{}'' []]"
  let ?st = "(initial_state 0 ?effs0)\<lparr>frame_durations := [1], prev_time := 1,
       frame_count := 1,
       effects := effects (initial_state 0 ?effs0) @ [Draw_fps 1, Imshow]\<rparr>"
  have h1: "open_capture (\<lambda>k. True) ''webcam'' None =
              (?effs0, Some \<lparr>hid = 1, isOpened = True\<rparr>)"
    by (simp add: open_capture_def check_opened_def not_path_def VideoCapture_def)
  have h2: "run_loop ''webcam'' True (initial_state 0 ?effs0) [Delivered 1 (Returns (255, 1))] =
              Running ?st"
    by (simp add: step_def good_frame_def smoothed_fps_def truediv_def deque_append_def
          emit_def initial_state_def FPS_FRAME_COUNT_def)
  have h3: "raised (Not_delivered (Raises KeyboardInterrupt)) = Some KeyboardInterrupt"
    by simp
  have h4: "raised (Delivered 2 (Raises (Exception ''boom''))) = Some (Exception ''boom'')"
    by simp
  show ?thesis
    using interrupt_and_error_exit [OF h1 h2 h3, of "[]" 4]
      interrupt_and_error_exit [OF h1 h2 h4, of "[]" 4]
    by auto
qed

subsection \<open>C8: configuration errors\<close>

text \<open>
  Claim C8 says that for a missing path and for an unrecognised kind alike the session
  returns \<^verbatim>\<open>EXIT_INIT_FAIL\<close> (1). A kind that is none of \<^verbatim>\<open>webcam\<close>,
  \<^verbatim>\<open>file\<close>, \<^verbatim>\<open>rtsp\<close> never reaches \<^verbatim>\<open>open_capture\<close>: the \<^verbatim>\<open>choices\<close> of
  line 26 make \<^verbatim>\<open>parse_args\<close> end the program with status 2, and nothing is logged.
\<close>

theorem unrecognised_kind_counterexample:
  "main ''usb'' (Some ''clip.mp4'') True (\<lambda>k. True) 0 [] 0 = Some ([], 2)"
  by (simp add: main_def parse_args_def)

text \<open>
  Claim C8, amended. When the source is \<^verbatim>\<open>file\<close> or \<^verbatim>\<open>rtsp\<close> and the path is
  \<^verbatim>\<open>None\<close> or empty, or when the source is none of \<^verbatim>\<open>webcam\<close>, \<^verbatim>\<open>file\<close>,
  \<^verbatim>\<open>rtsp\<close>, \<^verbatim>\<open>open_capture\<close> logs one error and returns \<^verbatim>\<open>None\<close> without a
  single \<^verbatim>\<open>cv2.VideoCapture\<close> call. With the missing path \<^verbatim>\<open>main\<close> exits with
  \<^verbatim>\<open>EXIT_INIT_FAIL\<close> (1) whatever the events \<open>evs\<close> would be: no window is made
  and no frame is read. With the unrecognised kind \<^verbatim>\<open>main\<close> exits with status 2
  from \<^verbatim>\<open>parse_args\<close>, before \<^verbatim>\<open>open_capture\<close> is called, again whatever the
  events would be.
\<close>

theorem configuration_errors:
  assumes "((source = ''file'' \<or> source = ''rtsp'') \<and> (path = None \<or> path = Some []))
           \<or> (source \<noteq> ''webcam'' \<and> source \<noteq> ''file'' \<and> source \<noteq> ''rtsp'')"
  shows "\<exists>msg. open_capture opens source path = ([Log ERROR msg []], None)
           \<and> main source path show_fps opens t0 evs t_end =
               (if source = ''file'' \<or> source = ''rtsp'' then
                  Some ([Log ERROR msg [],
                         Log ERROR ''Unable to start VisionStream due to input error.'' []],
                        EXIT_INIT_FAIL)
                else Some ([], 2))
           \<and> EXIT_INIT_FAIL = 1"
proof -
  have "\<exists>msg. open_capture opens source path = ([Log ERROR msg []], None)"
    using assms by (auto simp: open_capture_def not_path_def)
  then obtain msg where m: "open_capture opens source path = ([Log ERROR msg []], None)"
    by blast
  have "main source path show_fps opens t0 evs t_end =
               (if source = ''file'' \<or> source = ''rtsp'' then
                  Some ([Log ERROR msg [],
                         Log ERROR ''Unable to start VisionStream due to input error.'' []],
                        EXIT_INIT_FAIL)
                else Some ([], 2))"
  proof (cases "source = ''file'' \<or> source = ''rtsp''")
    case True
    then have "source = ''webcam'' \<or> source = ''file'' \<or> source = ''rtsp''" by blast
    from main_parsed [OF this, of path show_fps opens t0 evs t_end] m True
    show ?thesis by simp
  next
    case False
    with assms have "source \<noteq> ''webcam''" and "source \<noteq> ''file''" and "source \<noteq> ''rtsp''"
      by auto
    from main_refused [OF this, of path show_fps opens t0 evs t_end] False
    show ?thesis by simp
  qed
  with m show ?thesis
    by (auto simp: EXIT_INIT_FAIL_def)
qed

theorem configuration_errors_witness:
  "main ''file'' (Some []) True (\<lambda>k. True) 0 [Delivered 1 (Returns (255, 1))] 2 =
     Some ([Log ERROR ''Video file path is required. Use --path to specify the file location'' [],
            Log ERROR ''Unable to start VisionStream due to input error.'' []], 1)
   \<and> main ''rtsp'' None True (\<lambda>k. True) 0 [Delivered 1 (Returns (255, 1))] 2 =
     Some ([Log ERROR ''RTSP URL is required. Use --path to specify the stream URL'' [],
            Log ERROR ''Unable to start VisionStream due to input error.'' []], 1)
   \<and> (\<exists>msg. open_capture (\<lambda>k. True) ''usb'' (Some ''x'') = ([Log ERROR msg []], None))
   \<and> main ''usb'' (Some ''x'') True (\<lambda>k. True) 0 [Delivered 1 (Returns (255, 1))] 2 =
     Some ([], 2)"
proof -
  have h1: "((''file'' = ''file'' \<or> ''file'' = ''rtsp'') \<and> (Some [] = (None :: string option) \<or> Some [] = Some ([] :: string)))
           \<or> (''file'' \<noteq> ''webcam'' \<and> ''file'' \<noteq> ''file'' \<and> ''file'' \<noteq> ''rtsp'')"
    by simp
  have h2: "((''rtsp'' = ''file'' \<or> ''rtsp'' = ''rtsp'') \<and> (None = (None :: string option) \<or> None = Some ([] :: string)))
           \<or> (''rtsp'' \<noteq> ''webcam'' \<and> ''rtsp'' \<noteq> ''file'' \<and> ''rtsp'' \<noteq> ''rtsp'')"
    by simp
  have h3: "((''usb'' = ''file'' \<or> ''usb'' = ''rtsp'') \<and> (Some ''x'' = (None :: string option) \<or> Some ''x'' = Some ([] :: string)))
           \<or> (''usb'' \<noteq> ''webcam'' \<and> ''usb'' \<noteq> ''file'' \<and> ''usb'' \<noteq> ''rtsp'')"
    by simp
  have o1: "open_capture (\<lambda>k. True) ''file'' (Some []) =
      ([Log ERROR ''Video file path is required. Use --path to specify the file location'' []], None)"
    by (simp add: open_capture_def not_path_def)
  have o2: "open_capture (\<lambda>k. True) ''rtsp'' None =
      ([Log ERROR ''RTSP URL is required. Use --path to specify the stream URL'' []], None)"
    by (simp add: open_capture_def not_path_def)
  show ?thesis
    using configuration_errors [OF h1, of "\<lambda>k. True" True 0 "[Delivered 1 (Returns (255, 1))]" 2]
      configuration_errors [OF h2, of "\<lambda>k. True" True 0 "[Delivered 1 (Returns (255, 1))]" 2]
      configuration_errors [OF h3, of "\<lambda>k. True" True 0 "[Delivered 1 (Returns (255, 1))]" 2]
      o1 o2
    by auto
qed

subsection \<open>C9: the window holds at most 60 durations\<close>

text \<open>
  Claim C9. Appending to a window that holds 60 durations drops exactly the oldest one
  and keeps the others in their order, with the new duration last. After an append the
  window never holds more than 60 entries, whatever it held before; after any sequence
  \<open>ds\<close> of appends to the empty window it holds the last 60 durations of \<open>ds\<close> in
  order (all of them while there are at most 60); and the window of the loop holds at
  most 60 entries after any events, however the run ends.
\<close>

theorem rate_window_bounded:
  assumes "length w = 60"
  shows "deque_append FPS_FRAME_COUNT w d = tl w @ [d]
       \<and> length (deque_append FPS_FRAME_COUNT v d) \<le> 60
       \<and> foldl (deque_append FPS_FRAME_COUNT) [] ds = drop (length ds - 60) ds
       \<and> length (frame_durations (final_state
            (run_loop source show_fps (initial_state t0 effs) evs))) \<le> 60"
proof -
  have a: "deque_append FPS_FRAME_COUNT w d = tl w @ [d]"
    using assms by (cases w) (simp_all add: deque_append_def FPS_FRAME_COUNT_def)
  have b: "length (deque_append FPS_FRAME_COUNT v d) \<le> 60"
    by (simp add: length_deque_append FPS_FRAME_COUNT_def)
  have c: "foldl (deque_append FPS_FRAME_COUNT) [] ds = drop (length ds - 60) ds"
    using foldl_deque_append [of "[]" FPS_FRAME_COUNT ds]
    by (simp add: FPS_FRAME_COUNT_def)
  have d: "length (frame_durations (final_state
            (run_loop source show_fps (initial_state t0 effs) evs))) \<le> 60"
    using run_loop_window_bounded [of "initial_state t0 effs" source show_fps evs]
    by (simp add: FPS_FRAME_COUNT_def)
  from a b c d show ?thesis by blast
qed

theorem rate_window_bounded_witness:
  "length (map real [0..<60]) = 60
   \<and> deque_append FPS_FRAME_COUNT (map real [0..<60]) 60 = map real [1..<61]"
proof -
  have h: "length (map real [0..<60]) = 60" by simp
  have t: "tl (map real [0..<60]) @ [60] = map real [1..<61]"
    by (simp add: upt_rec)
  have "deque_append FPS_FRAME_COUNT (map real [0..<60]) 60 = tl (map real [0..<60]) @ [60]"
    using rate_window_bounded [OF h, of 60] by (rule conjunct1)
  with t h show ?thesis by simp
qed

subsection \<open>C10: the reference timestamp moves only on a delivered frame\<close>



end
